theory Spec2Isabelle
  imports Main "HOL-Library.Char_ord" "HOL-Library.List_Lexorder" "HOL-Library.Multiset"
begin

section \<open>The JavaScript library functions that script.js calls\<close>

text \<open>
  Titles are JavaScript strings. They are modelled as HOL strings over the ASCII
  alphabet: a \<^typ>\<open>char\<close> stands for the code unit of the same number, and the code units
  above 0x7F (where upper-casing and white space follow the Unicode tables) are outside
  the modelled alphabet: the functions below leave them alone.
  Ids are JavaScript numbers holding integers; they are modelled as \<^typ>\<open>int\<close>, which
  agrees with the double-precision arithmetic of the source as long as the ids stay in
  the range where it is exact.
\<close>

subsection \<open>String.prototype.trim and String.prototype.toUpperCase\<close>

definition is_space :: "char \<Rightarrow> bool" where
  "is_space c = (c = CHR 0x09 \<or> c = CHR 0x0A \<or> c = CHR 0x0B \<or> c = CHR 0x0C
                 \<or> c = CHR 0x0D \<or> c = CHR 0x20)"

definition trim :: "string \<Rightarrow> string" where
  "trim s = rev (dropWhile is_space (rev (dropWhile is_space s)))"

definition toUpperCase_char :: "char \<Rightarrow> char" where
  "toUpperCase_char c =
     (if CHR ''a'' \<le> c \<and> c \<le> CHR ''z'' then char_of (of_char c - (32::nat)) else c)"

definition toUpperCase :: "string \<Rightarrow> string" where
  "toUpperCase s = map toUpperCase_char s"

subsection \<open>Number to text, as in a template literal and in JSON.stringify\<close>

definition digit_char :: "nat \<Rightarrow> char" where
  "digit_char d = char_of (48 + d)"

fun show_nat :: "nat \<Rightarrow> string" where
  "show_nat n = (if n < 10 then [digit_char n] else show_nat (n div 10) @ [digit_char (n mod 10)])"

declare show_nat.simps [simp del]

definition show_int :: "int \<Rightarrow> string" where
  "show_int i = (if i < 0 then CHR ''-'' # show_nat (nat (- i)) else show_nat (nat i))"

subsection \<open>Array.prototype.sort and Array.prototype.findIndex\<close>

text \<open>
  The sort of the engine is not part of the repository. It is modelled as an insertion
  sort that consults nothing but the comparison function: an element moves past its
  neighbour exactly when the comparison function answers with a positive number.
  ECMAScript fixes the resulting order only for the pairs on which the comparison
  function is consistent; the theorems below say nothing about the relative order of
  entries that the comparison function of the source cannot tell apart.
\<close>

fun insert_by :: "('a \<Rightarrow> 'a \<Rightarrow> int) \<Rightarrow> 'a \<Rightarrow> 'a list \<Rightarrow> 'a list" where
  "insert_by cmp x [] = [x]"
| "insert_by cmp x (y # ys) = (if cmp x y > 0 then y # insert_by cmp x ys else x # y # ys)"

definition js_sort :: "('a \<Rightarrow> 'a \<Rightarrow> int) \<Rightarrow> 'a list \<Rightarrow> 'a list" where
  "js_sort cmp xs = foldr (insert_by cmp) xs []"

text \<open>\<open>findIndex\<close> answers with the first index whose element passes the test, or with -1.\<close>

fun findIndex :: "('a \<Rightarrow> bool) \<Rightarrow> 'a list \<Rightarrow> int" where
  "findIndex P [] = - 1"
| "findIndex P (x # xs) =
     (if P x then 0 else (let k = findIndex P xs in if k = - 1 then - 1 else k + 1))"

section \<open>The data model\<close>

text \<open>Class \<open>Todo\<close>: the constructor trims the title.\<close>

record todo =
  todo_id :: int
  title :: string

definition Todo :: "int \<Rightarrow> string \<Rightarrow> todo" where
  "Todo i t = \<lparr>todo_id = i, title = trim t\<rparr>"

text \<open>
  The source throws \<open>Error\<close> objects that differ in their message only; JSON.parse
  throws a \<open>SyntaxError\<close>, and a property read on \<open>undefined\<close> throws a \<open>TypeError\<close>.
\<close>

datatype js_error = Error string | SyntaxError | TypeError

definition DuplicateEmptyEntry :: js_error where
  "DuplicateEmptyEntry = Error ''There is empty element in todo list''"

definition EmptyTitle :: js_error where
  "EmptyTitle = Error ''You can not empty title.''"

definition NotFound :: "int \<Rightarrow> js_error" where
  "NotFound i = Error (''There are no such todo with '' @ show_int i @ '' id.'')"

definition ElementMissing :: "string \<Rightarrow> js_error" where
  "ElementMissing selector = Error (''There are no such element : '' @ selector @ ''.'')"

section \<open>JSON text of a todo array\<close>

text \<open>
  \<open>JSON.stringify\<close> of an array of objects with the own properties \<open>id\<close> and \<open>title\<close>:
  no white space, the properties in creation order, the title quoted with the escapes
  of ECMAScript's QuoteJSONString.
\<close>

definition dquote :: char where
  "dquote = CHR 0x22"

definition backslash :: char where
  "backslash = CHR 0x5C"

definition hex_char :: "nat \<Rightarrow> char" where
  "hex_char d = (if d < 10 then char_of (48 + d) else char_of (87 + d))"

definition escape_char :: "char \<Rightarrow> string" where
  "escape_char c =
     (if c = CHR 0x08 then [backslash, CHR ''b'']
      else if c = CHR 0x09 then [backslash, CHR ''t'']
      else if c = CHR 0x0A then [backslash, CHR ''n'']
      else if c = CHR 0x0C then [backslash, CHR ''f'']
      else if c = CHR 0x0D then [backslash, CHR ''r'']
      else if c = dquote then [backslash, dquote]
      else if c = backslash then [backslash, backslash]
      else if of_char c < (32::nat)
        then [backslash, CHR ''u'', CHR ''0'', CHR ''0'',
              hex_char (of_char c div 16), hex_char (of_char c mod 16)]
      else [c])"

definition quote :: "string \<Rightarrow> string" where
  "quote s = dquote # concat (map escape_char s) @ [dquote]"

definition id_key :: string where
  "id_key = CHR ''{'' # dquote # ''id'' @ [dquote, CHR '':'']"

definition title_key :: string where
  "title_key = CHR '','' # dquote # ''title'' @ [dquote, CHR '':'']"

definition stringify_todo :: "todo \<Rightarrow> string" where
  "stringify_todo t = id_key @ show_int (todo_id t) @ title_key @ quote (title t) @ ''}''"

fun stringify_elems :: "todo list \<Rightarrow> string" where
  "stringify_elems [] = []"
| "stringify_elems [t] = stringify_todo t"
| "stringify_elems (t # ts) = stringify_todo t @ '','' @ stringify_elems ts"

definition JSON_stringify :: "todo list \<Rightarrow> string" where
  "JSON_stringify ts = ''['' @ stringify_elems ts @ '']''"

text \<open>
  \<open>JSON.parse\<close>, modelled on the texts that \<open>JSON.stringify\<close> writes for a todo array:
  an array of objects, each with an integer \<open>id\<close> followed by a string \<open>title\<close>, without
  white space. String escapes are read as JSON defines them, as far as the escaped code
  unit is below 256. Every other text is answered with \<open>SyntaxError\<close>; where such a text
  is valid JSON of another shape the engine would return a value instead, and no
  theorem below is about such a text.
\<close>

definition is_digit :: "char \<Rightarrow> bool" where
  "is_digit c = (CHR ''0'' \<le> c \<and> c \<le> CHR ''9'')"

definition digit_val :: "char \<Rightarrow> nat" where
  "digit_val c = of_char c - 48"

definition parse_nat :: "string \<Rightarrow> nat" where
  "parse_nat ds = foldl (\<lambda>a c. 10 * a + digit_val c) 0 ds"

definition hex_val :: "char \<Rightarrow> nat option" where
  "hex_val c =
     (if CHR ''0'' \<le> c \<and> c \<le> CHR ''9'' then Some (of_char c - 48)
      else if CHR ''a'' \<le> c \<and> c \<le> CHR ''f'' then Some (of_char c - 87)
      else if CHR ''A'' \<le> c \<and> c \<le> CHR ''F'' then Some (of_char c - 55)
      else None)"

definition hex4 :: "char \<Rightarrow> char \<Rightarrow> char \<Rightarrow> char \<Rightarrow> char option" where
  "hex4 a b c d =
     (case (hex_val a, hex_val b, hex_val c, hex_val d) of
        (Some p, Some q, Some r, Some s) \<Rightarrow>
          (let v = ((p * 16 + q) * 16 + r) * 16 + s in if v < 256 then Some (char_of v) else None)
      | _ \<Rightarrow> None)"

definition unescape :: "char \<Rightarrow> char option" where
  "unescape e =
     (if e = dquote then Some dquote
      else if e = backslash then Some backslash
      else if e = CHR ''/'' then Some (CHR ''/'')
      else if e = CHR ''b'' then Some (CHR 0x08)
      else if e = CHR ''f'' then Some (CHR 0x0C)
      else if e = CHR ''n'' then Some (CHR 0x0A)
      else if e = CHR ''r'' then Some (CHR 0x0D)
      else if e = CHR ''t'' then Some (CHR 0x09)
      else None)"

fun expect :: "string \<Rightarrow> string \<Rightarrow> string option" where
  "expect [] s = Some s"
| "expect (p # ps) [] = None"
| "expect (p # ps) (c # cs) = (if p = c then expect ps cs else None)"

definition parse_int :: "string \<Rightarrow> (int \<times> string) option" where
  "parse_int s =
     (let (neg, s1) = (case s of [] \<Rightarrow> (False, s)
                       | c # cs \<Rightarrow> if c = CHR ''-'' then (True, cs) else (False, s));
          ds = takeWhile is_digit s1;
          rest = dropWhile is_digit s1
      in if ds = [] \<or> (take 1 ds = ''0'' \<and> length ds > 1) then None
         else Some (if neg then - int (parse_nat ds) else int (parse_nat ds), rest))"

text \<open>The characters of a string literal after its opening quote, up to the closing one.\<close>

fun parse_chars :: "string \<Rightarrow> (string \<times> string) option" where
  "parse_chars [] = None"
| "parse_chars (c # cs) =
     (if c = dquote then Some ([], cs)
      else if c = backslash then
        (case cs of
           [] \<Rightarrow> None
         | e # r \<Rightarrow>
             if e = CHR ''u'' then
               (case r of
                  h1 # h2 # h3 # h4 # r' \<Rightarrow>
                    (case hex4 h1 h2 h3 h4 of
                       None \<Rightarrow> None
                     | Some ch \<Rightarrow> map_option (\<lambda>(t, rest). (ch # t, rest)) (parse_chars r'))
                | _ \<Rightarrow> None)
             else
               (case unescape e of
                  None \<Rightarrow> None
                | Some ch \<Rightarrow> map_option (\<lambda>(t, rest). (ch # t, rest)) (parse_chars r)))
      else if of_char c < (32::nat) then None
      else map_option (\<lambda>(t, rest). (c # t, rest)) (parse_chars cs))"

definition parse_todo :: "string \<Rightarrow> (todo \<times> string) option" where
  "parse_todo s =
     (case expect id_key s of
        None \<Rightarrow> None
      | Some s1 \<Rightarrow>
          (case parse_int s1 of
             None \<Rightarrow> None
           | Some (i, s2) \<Rightarrow>
               (case expect (title_key @ [dquote]) s2 of
                  None \<Rightarrow> None
                | Some s3 \<Rightarrow>
                    (case parse_chars s3 of
                       None \<Rightarrow> None
                     | Some (t, s4) \<Rightarrow>
                         (case expect ''}'' s4 of
                            None \<Rightarrow> None
                          | Some s5 \<Rightarrow> Some (\<lparr>todo_id = i, title = t\<rparr>, s5))))))"

lemma expect_length: "expect p s = Some r \<Longrightarrow> length r + length p = length s"
  by (induction p s rule: expect.induct) (auto split: if_splits)

lemma parse_int_length: "parse_int s = Some (i, r) \<Longrightarrow> length r \<le> length s"
proof -
  have drop: "length (dropWhile is_digit xs) \<le> length xs" for xs
    by (simp add: length_dropWhile_le)
  assume "parse_int s = Some (i, r)"
  then show ?thesis
    using drop [of s] drop [of "tl s"]
    by (cases s) (auto simp: parse_int_def Let_def split: if_splits)
qed

lemma parse_chars_length: "parse_chars s = Some (t, r) \<Longrightarrow> length r < length s"
proof (induction s arbitrary: t r rule: parse_chars.induct)
  case 1
  then show ?case by simp
next
  case (2 c cs)
  then show ?case
    by (fastforce split: if_splits list.splits option.splits)
qed

lemma parse_todo_length: "parse_todo s = Some (t, r) \<Longrightarrow> length r < length s"
  by (auto simp: parse_todo_def split: option.splits
           dest!: expect_length parse_int_length parse_chars_length)

function parse_elems :: "string \<Rightarrow> todo list option" where
  "parse_elems s =
     (case parse_todo s of
        None \<Rightarrow> None
      | Some (t, rest) \<Rightarrow>
          (case rest of
             [] \<Rightarrow> None
           | c # r \<Rightarrow>
               if c = CHR '','' then map_option ((#) t) (parse_elems r)
               else if c = CHR '']'' \<and> r = [] then Some [t]
               else None))"
  by pat_completeness auto
termination
  by (relation "measure length") (auto dest: parse_todo_length)

declare parse_elems.simps [simp del]

definition JSON_parse :: "string \<Rightarrow> js_error + todo list" where
  "JSON_parse s =
     (case s of
        [] \<Rightarrow> Inl SyntaxError
      | c # r \<Rightarrow>
          if c \<noteq> CHR ''['' then Inl SyntaxError
          else if r = '']'' then Inr []
          else (case parse_elems r of None \<Rightarrow> Inl SyntaxError | Some ts \<Rightarrow> Inr ts))"

section \<open>Class TodoService\<close>

text \<open>
  The state that the methods of \<open>TodoService\<close> read and write: the private field
  \<open>_todos\<close> of the instance and the browser's \<open>localStorage\<close>, a map from keys to texts.
  A method that can throw returns the exception (\<open>Inl\<close>) or normal completion (\<open>Inr\<close>)
  together with the state it leaves behind.
\<close>

type_synonym storage = "string \<rightharpoonup> string"

record service =
  todos :: "todo list"
  localStorage :: storage

definition TODOS :: string where
  "TODOS = ''TODOS''"

definition commit :: "service \<Rightarrow> service" where
  "commit s = s\<lparr>localStorage := (localStorage s)(TODOS \<mapsto> JSON_stringify (todos s))\<rparr>"

text \<open>\<open>getItem\<close> answers \<open>null\<close> for a missing key; \<open>null\<close> and the empty text are falsy.\<close>

definition TodoService_init :: "storage \<Rightarrow> js_error + service" where
  "TodoService_init ls =
     (case JSON_parse (case ls TODOS of None \<Rightarrow> ''[]'' | Some v \<Rightarrow> if v = [] then ''[]'' else v) of
        Inl e \<Rightarrow> Inl e
      | Inr ts \<Rightarrow> Inr \<lparr>todos = ts, localStorage = ls\<rparr>)"

definition TodoService_constructor :: "todo list \<Rightarrow> storage \<Rightarrow> js_error + service" where
  "TodoService_constructor seed ls =
     (case TodoService_init ls of
        Inl e \<Rightarrow> Inl e
      | Inr s \<Rightarrow> if length (todos s) = 0 then Inr (commit (s\<lparr>todos := seed\<rparr>)) else Inr s)"

definition getTodos :: "service \<Rightarrow> todo list" where
  "getTodos s = todos s"

text \<open>
  \<open>_generateId\<close>: the id of the first entry of the descending sort, plus one. Reading
  \<open>[0].id\<close> of an empty array would throw a \<open>TypeError\<close>.
\<close>

definition generateId :: "service \<Rightarrow> js_error + int" where
  "generateId s =
     (if length (todos s) \<noteq> 0
      then (case js_sort (\<lambda>t1 t2. todo_id t2 - todo_id t1) (todos s) of
              [] \<Rightarrow> Inl TypeError
            | t # _ \<Rightarrow> Inr (todo_id t + 1))
      else Inr 1)"

definition addTodo :: "string \<Rightarrow> service \<Rightarrow> (js_error + unit) \<times> service" where
  "addTodo ttl s =
     (if \<not> list_ex (\<lambda>t. title t = []) (todos s)
      then (case generateId s of
              Inl e \<Rightarrow> (Inl e, s)
            | Inr i \<Rightarrow> (Inr (), commit (s\<lparr>todos := todos s @ [Todo i ttl]\<rparr>)))
      else (Inl (Error ''There is empty element in todo list''), s))"

definition getIndex :: "int \<Rightarrow> service \<Rightarrow> js_error + int" where
  "getIndex i s =
     (let index = findIndex (\<lambda>t. todo_id t = i) (todos s)
      in if index \<noteq> - 1 then Inr index
         else Inl (Error (''There are no such todo with '' @ show_int i @ '' id.'')))"

text \<open>
  \<open>editTodo\<close> copies the array and assigns to the \<open>title\<close> of the entry at the index found;
  an index outside the array would make that assignment throw a \<open>TypeError\<close>.
\<close>

definition editTodo :: "int \<Rightarrow> string \<Rightarrow> service \<Rightarrow> (js_error + unit) \<times> service" where
  "editTodo i ttl s =
     (if ttl = [] then (Inl (Error ''You can not empty title.''), s)
      else (case getIndex i s of
              Inl e \<Rightarrow> (Inl e, s)
            | Inr k \<Rightarrow>
                if 0 \<le> k \<and> nat k < length (todos s)
                then (Inr (), commit (s\<lparr>todos :=
                        (todos s)[nat k := (todos s ! nat k)\<lparr>title := trim ttl\<rparr>]\<rparr>))
                else (Inl TypeError, s)))"

definition deleteTodo :: "int \<Rightarrow> service \<Rightarrow> service" where
  "deleteTodo i s = commit (s\<lparr>todos := filter (\<lambda>t. todo_id t \<noteq> i) (todos s)\<rparr>)"

definition sortTodos :: "bool \<Rightarrow> service \<Rightarrow> service" where
  "sortTodos direction s =
     (let sorted_todos =
            js_sort (\<lambda>t1 t2. if toUpperCase (title t1) > toUpperCase (title t2) then 1 else - 1)
                    (filter (\<lambda>t. title t \<noteq> []) (todos s))
      in commit (s\<lparr>todos := (if \<not> direction then rev sorted_todos else sorted_todos)\<rparr>))"

section \<open>Facts about the library models\<close>

lemma set_insert_by: "set (insert_by cmp x ys) = insert x (set ys)"
  by (induction ys) auto

lemma mset_insert_by: "mset (insert_by cmp x ys) = add_mset x (mset ys)"
  by (induction ys) auto

lemma mset_js_sort: "mset (js_sort cmp xs) = mset xs"
  by (induction xs) (simp_all add: js_sort_def mset_insert_by)

lemma set_js_sort: "set (js_sort cmp xs) = set xs"
  using mset_js_sort [of cmp xs] by (metis set_mset_mset)

lemma length_js_sort: "length (js_sort cmp xs) = length xs"
  using mset_js_sort [of cmp xs] by (metis size_mset)

lemma sorted_wrt_insert_by:
  assumes tr: "transp R"
    and gt: "\<And>a b. cmp a b > 0 \<Longrightarrow> R b a"
    and le: "\<And>a b. \<not> cmp a b > 0 \<Longrightarrow> R a b"
    and srt: "sorted_wrt R ys"
  shows "sorted_wrt R (insert_by cmp x ys)"
  using srt
proof (induction ys)
  case Nil
  then show ?case by simp
next
  case (Cons y ys)
  show ?case
  proof (cases "cmp x y > 0")
    case True
    with Cons gt show ?thesis by (auto simp: set_insert_by)
  next
    case False
    then have xy: "R x y" by (rule le)
    have "R x z" if "z \<in> set ys" for z
      using that Cons.prems xy tr by (auto dest: transpD)
    with False xy Cons.prems show ?thesis by auto
  qed
qed

lemma sorted_wrt_js_sort:
  assumes "transp R" "\<And>a b. cmp a b > 0 \<Longrightarrow> R b a" "\<And>a b. \<not> cmp a b > 0 \<Longrightarrow> R a b"
  shows "sorted_wrt R (js_sort cmp xs)"
  by (induction xs) (simp_all add: js_sort_def sorted_wrt_insert_by [OF assms])

lemma js_sort_desc_head:
  assumes "js_sort (\<lambda>t1 t2. todo_id t2 - todo_id t1) ts = t # rest"
  shows "t \<in> set ts \<and> (\<forall>u\<in>set ts. todo_id u \<le> todo_id t)"
proof -
  let ?cmp = "\<lambda>t1 t2. todo_id t2 - todo_id t1"
  have "sorted_wrt (\<lambda>a b. todo_id b \<le> todo_id a) (js_sort ?cmp ts)"
    by (rule sorted_wrt_js_sort) (auto simp: transp_def)
  with assms have "\<forall>u\<in>set rest. todo_id u \<le> todo_id t" by simp
  moreover have "set ts = insert t (set rest)"
    using set_js_sort [of ?cmp ts] assms by simp
  ultimately show ?thesis by auto
qed

lemma generateId_eq:
  "generateId s = Inr (if todos s = [] then 1 else Max (todo_id ` set (todos s)) + 1)"
proof (cases "todos s")
  case Nil
  then show ?thesis by (simp add: generateId_def)
next
  case (Cons a as)
  let ?srt = "js_sort (\<lambda>t1 t2. todo_id t2 - todo_id t1) (todos s)"
  from Cons have "length ?srt \<noteq> 0" by (simp add: length_js_sort)
  then obtain t rest where srt: "?srt = t # rest" by (cases ?srt) auto
  from js_sort_desc_head [OF srt]
  have "Max (todo_id ` set (todos s)) = todo_id t"
    by (intro Max_eqI) auto
  with Cons srt show ?thesis by (simp add: generateId_def)
qed

section \<open>addTodo\<close>

text \<open>
  Claim C1. \<open>addTodo(title)\<close>: when no todo of the collection has an empty title, the call
  completes normally, the collection grows at its end by exactly one todo whose title is
  the trimmed argument and whose id is the largest id of the collection before the call
  plus one (1 for the empty collection), the todos that were there stay as they were,
  and the new collection is written to the storage. When some todo has an empty title,
  the call throws the error of the duplicate empty entry and leaves the collection and
  the storage as they were.
\<close>

theorem addTodo_spec:
  "(\<not> list_ex (\<lambda>t. title t = []) (todos s) \<longrightarrow>
      fst (addTodo ttl s) = Inr ()
      \<and> todos (snd (addTodo ttl s)) =
          todos s @ [\<lparr>todo_id = (if todos s = [] then 1 else Max (todo_id ` set (todos s)) + 1),
                      title = trim ttl\<rparr>]
      \<and> localStorage (snd (addTodo ttl s)) =
          (localStorage s)(TODOS \<mapsto> JSON_stringify (todos (snd (addTodo ttl s)))))
   \<and> (list_ex (\<lambda>t. title t = []) (todos s) \<longrightarrow>
      addTodo ttl s = (Inl DuplicateEmptyEntry, s))"
  by (simp add: addTodo_def generateId_eq commit_def Todo_def DuplicateEmptyEntry_def)

theorem addTodo_spec_witness:
  "todos (snd (addTodo ''  foo  ''
      \<lparr>todos = [\<lparr>todo_id = 1, title = ''a''\<rparr>, \<lparr>todo_id = 5, title = ''b''\<rparr>],
       localStorage = Map.empty\<rparr>))
     = [\<lparr>todo_id = 1, title = ''a''\<rparr>, \<lparr>todo_id = 5, title = ''b''\<rparr>,
        \<lparr>todo_id = 6, title = ''foo''\<rparr>]
   \<and> addTodo '''' \<lparr>todos = [\<lparr>todo_id = 1, title = ''''\<rparr>], localStorage = Map.empty\<rparr>
     = (Inl DuplicateEmptyEntry, \<lparr>todos = [\<lparr>todo_id = 1, title = ''''\<rparr>], localStorage = Map.empty\<rparr>)"
  using addTodo_spec [of "\<lparr>todos = [\<lparr>todo_id = 1, title = ''a''\<rparr>, \<lparr>todo_id = 5, title = ''b''\<rparr>],
                           localStorage = Map.empty\<rparr>" "''  foo  ''"]
        addTodo_spec [of "\<lparr>todos = [\<lparr>todo_id = 1, title = ''''\<rparr>], localStorage = Map.empty\<rparr>" "''''"]
  by (simp add: trim_def is_space_def)

section \<open>editTodo and deleteTodo\<close>

lemma findIndex_ge: "- 1 \<le> findIndex P xs"
  by (induction xs) (auto simp: Let_def)

lemma findIndex_none: "findIndex P xs = - 1 \<longleftrightarrow> (\<forall>x\<in>set xs. \<not> P x)"
proof (induction xs)
  case Nil
  then show ?case by simp
next
  case (Cons x xs)
  then show ?case
    using findIndex_ge [of P xs] by (auto simp: Let_def)
qed

lemma findIndex_first:
  "findIndex P xs \<noteq> - 1 \<Longrightarrow>
     0 \<le> findIndex P xs \<and> nat (findIndex P xs) < length xs \<and> P (xs ! nat (findIndex P xs))
     \<and> (\<forall>j < nat (findIndex P xs). \<not> P (xs ! j))"
proof (induction xs)
  case Nil
  then show ?case by simp
next
  case (Cons x xs)
  show ?case
  proof (cases "P x")
    case True
    then show ?thesis by simp
  next
    case False
    with Cons.prems have ne: "findIndex P xs \<noteq> - 1" by (auto simp: Let_def)
    note ih = Cons.IH [OF ne]
    from False ne have eq: "findIndex P (x # xs) = findIndex P xs + 1" by (simp add: Let_def)
    from ih have n: "nat (findIndex P xs + 1) = Suc (nat (findIndex P xs))" by linarith
    show ?thesis
      unfolding eq n using ih False by (auto simp: less_Suc_eq_0_disj)
  qed
qed

lemma getIndex_cases:
  "getIndex i s =
     (if \<exists>t\<in>set (todos s). todo_id t = i
      then Inr (findIndex (\<lambda>t. todo_id t = i) (todos s)) else Inl (NotFound i))"
  using findIndex_none [of "\<lambda>t. todo_id t = i" "todos s"]
  by (auto simp: getIndex_def NotFound_def Let_def)

lemma editTodo_cases:
  "editTodo i ttl s =
     (if ttl = [] then (Inl EmptyTitle, s)
      else if \<not> (\<exists>t\<in>set (todos s). todo_id t = i) then (Inl (NotFound i), s)
      else (Inr (), commit (s\<lparr>todos := (todos s)
              [nat (findIndex (\<lambda>t. todo_id t = i) (todos s)) :=
                 (todos s ! nat (findIndex (\<lambda>t. todo_id t = i) (todos s)))\<lparr>title := trim ttl\<rparr>]\<rparr>)))"
proof -
  have "0 \<le> findIndex (\<lambda>t. todo_id t = i) (todos s)
        \<and> nat (findIndex (\<lambda>t. todo_id t = i) (todos s)) < length (todos s)"
    if "\<exists>t\<in>set (todos s). todo_id t = i"
    using that findIndex_first [of "\<lambda>t. todo_id t = i" "todos s"]
      findIndex_none [of "\<lambda>t. todo_id t = i" "todos s"] by blast
  then show ?thesis
    by (auto simp: editTodo_def getIndex_cases EmptyTitle_def)
qed

lemma error_distinct: "EmptyTitle \<noteq> NotFound i" "EmptyTitle \<noteq> DuplicateEmptyEntry"
  "NotFound i \<noteq> DuplicateEmptyEntry"
  by (simp_all add: EmptyTitle_def NotFound_def DuplicateEmptyEntry_def)

text \<open>
  Claim C2. \<open>editTodo(id, title)\<close> throws the error of the empty title exactly when the
  title argument as passed is empty; the test comes before the trimming, so a title of
  white space only passes it. Otherwise it throws the error of the missing todo exactly
  when no todo of the collection has the id. It throws nothing else, and whenever it
  throws, the collection and the storage are as they were.
\<close>

theorem editTodo_failures:
  "(fst (editTodo i ttl s) = Inl EmptyTitle \<longleftrightarrow> ttl = [])
   \<and> (ttl \<noteq> [] \<longrightarrow>
        (fst (editTodo i ttl s) = Inl (NotFound i) \<longleftrightarrow> \<not> (\<exists>t\<in>set (todos s). todo_id t = i)))
   \<and> (\<forall>e. fst (editTodo i ttl s) = Inl e \<longrightarrow>
        (e = EmptyTitle \<or> e = NotFound i) \<and> snd (editTodo i ttl s) = s)"
  using error_distinct(1) [of i]
  by (auto simp: editTodo_cases)

theorem editTodo_failures_witness:
  "fst (editTodo 1 [] \<lparr>todos = [\<lparr>todo_id = 1, title = ''a''\<rparr>], localStorage = Map.empty\<rparr>)
     = Inl EmptyTitle
   \<and> fst (editTodo 1 '' '' \<lparr>todos = [\<lparr>todo_id = 1, title = ''a''\<rparr>], localStorage = Map.empty\<rparr>)
     \<noteq> Inl EmptyTitle
   \<and> editTodo 7 ''x'' \<lparr>todos = [\<lparr>todo_id = 1, title = ''a''\<rparr>], localStorage = Map.empty\<rparr>
     = (Inl (NotFound 7), \<lparr>todos = [\<lparr>todo_id = 1, title = ''a''\<rparr>], localStorage = Map.empty\<rparr>)"
  using editTodo_failures [of 1 "[]" "\<lparr>todos = [\<lparr>todo_id = 1, title = ''a''\<rparr>], localStorage = Map.empty\<rparr>"]
        editTodo_failures [of 1 "'' ''" "\<lparr>todos = [\<lparr>todo_id = 1, title = ''a''\<rparr>], localStorage = Map.empty\<rparr>"]
        editTodo_failures [of 7 "''x''" "\<lparr>todos = [\<lparr>todo_id = 1, title = ''a''\<rparr>], localStorage = Map.empty\<rparr>"]
  by (simp add: prod_eq_iff)

text \<open>
  Claim C6. When the collection holds a todo with the given id and the title argument is
  not empty, \<open>editTodo(id, title)\<close> completes normally and changes one thing only: the title
  of the first todo with that id becomes the trimmed argument. That todo keeps its id,
  every other todo keeps its id and its title, the collection keeps its length and its
  order, and the updated collection is written to the storage.
\<close>

theorem editTodo_frame:
  assumes "\<exists>t\<in>set (todos s). todo_id t = i" and "ttl \<noteq> []"
  shows "\<exists>k < length (todos s).
           todo_id (todos s ! k) = i \<and> (\<forall>j < k. todo_id (todos s ! j) \<noteq> i)
           \<and> editTodo i ttl s = (Inr (), commit (s\<lparr>todos := (todos s)[k := \<lparr>todo_id = i, title = trim ttl\<rparr>]\<rparr>))
           \<and> length (todos (snd (editTodo i ttl s))) = length (todos s)
           \<and> map todo_id (todos (snd (editTodo i ttl s))) = map todo_id (todos s)
           \<and> title (todos (snd (editTodo i ttl s)) ! k) = trim ttl
           \<and> (\<forall>j < length (todos s). j \<noteq> k \<longrightarrow> todos (snd (editTodo i ttl s)) ! j = todos s ! j)
           \<and> localStorage (snd (editTodo i ttl s)) =
               (localStorage s)(TODOS \<mapsto> JSON_stringify (todos (snd (editTodo i ttl s))))"
proof -
  let ?k = "nat (findIndex (\<lambda>t. todo_id t = i) (todos s))"
  have ne: "findIndex (\<lambda>t. todo_id t = i) (todos s) \<noteq> - 1"
    using assms(1) findIndex_none [of "\<lambda>t. todo_id t = i" "todos s"] by blast
  note f = findIndex_first [OF ne]
  have k: "?k < length (todos s)" and idk: "todo_id (todos s ! ?k) = i"
    and first: "\<forall>j < ?k. todo_id (todos s ! j) \<noteq> i"
    using f by auto
  have upd: "(todos s ! ?k)\<lparr>title := trim ttl\<rparr> = \<lparr>todo_id = i, title = trim ttl\<rparr>"
    using idk by (cases "todos s ! ?k") auto
  have ed: "editTodo i ttl s = (Inr (), commit (s\<lparr>todos := (todos s)[?k := \<lparr>todo_id = i, title = trim ttl\<rparr>]\<rparr>))"
    using assms upd by (simp add: editTodo_cases)
  have ids: "map todo_id ((todos s)[?k := \<lparr>todo_id = i, title = trim ttl\<rparr>]) = map todo_id (todos s)"
    using k idk by (simp add: map_update list_update_same_conv)
  show ?thesis
    using k idk first ed ids by (intro exI [of _ ?k]) (simp add: commit_def)
qed

theorem editTodo_frame_witness:
  "(\<exists>t\<in>set (todos \<lparr>todos = [\<lparr>todo_id = 1, title = ''a''\<rparr>, \<lparr>todo_id = 2, title = ''b''\<rparr>,
                               \<lparr>todo_id = 3, title = ''c''\<rparr>], localStorage = Map.empty\<rparr>).
      todo_id t = 2)
   \<and> ''  bar  '' \<noteq> []
   \<and> todos (snd (editTodo 2 ''  bar  ''
        \<lparr>todos = [\<lparr>todo_id = 1, title = ''a''\<rparr>, \<lparr>todo_id = 2, title = ''b''\<rparr>,
                  \<lparr>todo_id = 3, title = ''c''\<rparr>], localStorage = Map.empty\<rparr>))
     = [\<lparr>todo_id = 1, title = ''a''\<rparr>, \<lparr>todo_id = 2, title = ''bar''\<rparr>, \<lparr>todo_id = 3, title = ''c''\<rparr>]"
  using editTodo_frame [of "\<lparr>todos = [\<lparr>todo_id = 1, title = ''a''\<rparr>, \<lparr>todo_id = 2, title = ''b''\<rparr>,
                               \<lparr>todo_id = 3, title = ''c''\<rparr>], localStorage = Map.empty\<rparr>" 2 "''  bar  ''"]
  by (auto simp: less_Suc_eq numeral_3_eq_3 commit_def trim_def is_space_def)

text \<open>
  Claim C7. \<open>deleteTodo(id)\<close> never throws and keeps exactly the todos whose id differs
  from the argument. On a collection with unique ids that holds the id it removes one
  entry and leaves the others as they were, in their order; on a collection without the
  id it changes nothing in the collection, so a second call after a first one changes
  nothing at all; and it writes the collection to the storage either way.
\<close>

theorem deleteTodo_spec:
  "todos (deleteTodo i s) = filter (\<lambda>t. todo_id t \<noteq> i) (todos s)
   \<and> (distinct (map todo_id (todos s)) \<and> (\<exists>t\<in>set (todos s). todo_id t = i) \<longrightarrow>
        (\<exists>xs t ys. todos s = xs @ t # ys \<and> todo_id t = i \<and> todos (deleteTodo i s) = xs @ ys))
   \<and> (\<not> (\<exists>t\<in>set (todos s). todo_id t = i) \<longrightarrow> todos (deleteTodo i s) = todos s)
   \<and> deleteTodo i (deleteTodo i s) = deleteTodo i s
   \<and> localStorage (deleteTodo i s) =
       (localStorage s)(TODOS \<mapsto> JSON_stringify (todos (deleteTodo i s)))"
proof -
  have one: "\<exists>xs t ys. todos s = xs @ t # ys \<and> todo_id t = i
               \<and> filter (\<lambda>t. todo_id t \<noteq> i) (todos s) = xs @ ys"
    if d: "distinct (map todo_id (todos s))" and ex: "\<exists>t\<in>set (todos s). todo_id t = i"
  proof -
    from ex obtain t where "t \<in> set (todos s)" "todo_id t = i" by blast
    then obtain xs ys where sp: "todos s = xs @ t # ys" by (auto simp: in_set_conv_decomp)
    with d \<open>todo_id t = i\<close> have "\<forall>u\<in>set xs \<union> set ys. todo_id u \<noteq> i"
      by (auto simp: image_iff)
    then have "filter (\<lambda>t. todo_id t \<noteq> i) (todos s) = xs @ ys"
      using sp \<open>todo_id t = i\<close> by (simp add: filter_id_conv)
    with sp \<open>todo_id t = i\<close> show ?thesis by blast
  qed
  have absent: "filter (\<lambda>t. todo_id t \<noteq> i) (todos s) = todos s"
    if "\<not> (\<exists>t\<in>set (todos s). todo_id t = i)"
    using that by (simp add: filter_id_conv)
  show ?thesis
    using one absent by (simp add: deleteTodo_def commit_def)
qed

theorem deleteTodo_spec_witness:
  "distinct (map todo_id (todos \<lparr>todos = [\<lparr>todo_id = 1, title = ''a''\<rparr>, \<lparr>todo_id = 2, title = ''b''\<rparr>],
                                 localStorage = Map.empty\<rparr>))
   \<and> todos (deleteTodo 2 \<lparr>todos = [\<lparr>todo_id = 1, title = ''a''\<rparr>, \<lparr>todo_id = 2, title = ''b''\<rparr>],
                          localStorage = Map.empty\<rparr>) = [\<lparr>todo_id = 1, title = ''a''\<rparr>]
   \<and> todos (deleteTodo 9 \<lparr>todos = [\<lparr>todo_id = 1, title = ''a''\<rparr>, \<lparr>todo_id = 2, title = ''b''\<rparr>],
                          localStorage = Map.empty\<rparr>)
       = [\<lparr>todo_id = 1, title = ''a''\<rparr>, \<lparr>todo_id = 2, title = ''b''\<rparr>]"
  using deleteTodo_spec [of 2 "\<lparr>todos = [\<lparr>todo_id = 1, title = ''a''\<rparr>, \<lparr>todo_id = 2, title = ''b''\<rparr>],
                                 localStorage = Map.empty\<rparr>"]
        deleteTodo_spec [of 9 "\<lparr>todos = [\<lparr>todo_id = 1, title = ''a''\<rparr>, \<lparr>todo_id = 2, title = ''b''\<rparr>],
                                 localStorage = Map.empty\<rparr>"]
  by simp

section \<open>sortTodos\<close>

lemma sorted_by_title:
  "sorted_wrt (\<lambda>a b. toUpperCase (title a) \<le> toUpperCase (title b))
     (js_sort (\<lambda>t1 t2. if toUpperCase (title t1) > toUpperCase (title t2) then 1 else - 1) ts)"
  by (rule sorted_wrt_js_sort) (auto simp: transp_def split: if_splits)

text \<open>
  Claim C3. \<open>sortTodos(true)\<close> leaves exactly the todos with a non-empty title, each as
  often as before, in ascending order of their upper-cased titles; \<open>sortTodos(false)\<close>
  leaves the reverse of that list. The result replaces the collection and is written to
  the storage, so \<open>getTodos\<close> returns it from then on. On the titles b, A and the empty
  title the ascending sort leaves A, b and the descending sort leaves b, A.
\<close>

theorem sortTodos_spec:
  "mset (todos (sortTodos True s)) = mset (filter (\<lambda>t. title t \<noteq> []) (todos s))
   \<and> sorted_wrt (\<lambda>a b. toUpperCase (title a) \<le> toUpperCase (title b)) (todos (sortTodos True s))
   \<and> todos (sortTodos False s) = rev (todos (sortTodos True s))
   \<and> localStorage (sortTodos d s) = (localStorage s)(TODOS \<mapsto> JSON_stringify (todos (sortTodos d s)))
   \<and> getTodos (sortTodos d s) = todos (sortTodos d s)
   \<and> map title (todos (sortTodos True
        \<lparr>todos = [\<lparr>todo_id = 1, title = ''b''\<rparr>, \<lparr>todo_id = 2, title = ''A''\<rparr>, \<lparr>todo_id = 3, title = ''''\<rparr>],
         localStorage = ls\<rparr>)) = [''A'', ''b'']
   \<and> map title (todos (sortTodos False
        \<lparr>todos = [\<lparr>todo_id = 1, title = ''b''\<rparr>, \<lparr>todo_id = 2, title = ''A''\<rparr>, \<lparr>todo_id = 3, title = ''''\<rparr>],
         localStorage = ls\<rparr>)) = [''b'', ''A'']"
proof -
  have up: "toUpperCase ''b'' = ''B''" "toUpperCase ''A'' = ''A''"
    by code_simp+
  have ex: "js_sort (\<lambda>t1 t2. if toUpperCase (title t1) > toUpperCase (title t2) then 1 else - 1)
              [\<lparr>todo_id = 1, title = ''b''\<rparr>, \<lparr>todo_id = 2, title = ''A''\<rparr>]
            = [\<lparr>todo_id = 2, title = ''A''\<rparr>, \<lparr>todo_id = 1, title = ''b''\<rparr>]"
    by (simp add: js_sort_def up)
  show ?thesis
    using sorted_by_title [of "filter (\<lambda>t. title t \<noteq> []) (todos s)"]
    by (simp add: sortTodos_def Let_def commit_def mset_js_sort getTodos_def ex)
qed

section \<open>Reading back what JSON.stringify wrote\<close>

lemma char_eq_code: "c = c' \<longleftrightarrow> (of_char c :: nat) = of_char c'"
  by simp

lemma is_digit_code: "is_digit c \<longleftrightarrow> 48 \<le> (of_char c :: nat) \<and> (of_char c :: nat) \<le> 57"
  by (simp add: is_digit_def less_eq_char_def)

lemma of_char_digit_char: "d < 10 \<Longrightarrow> (of_char (digit_char d) :: nat) = 48 + d"
  by (simp add: digit_char_def)

lemma digit_char_props:
  assumes "d < 10"
  shows "is_digit (digit_char d)" "digit_val (digit_char d) = d" "digit_char d \<noteq> CHR ''-''"
    "digit_char d = CHR ''0'' \<longleftrightarrow> d = 0"
  using assms
  by (simp_all add: is_digit_code digit_val_def of_char_digit_char
        char_eq_code [of "digit_char d"])

lemma show_nat_digits: "c \<in> set (show_nat n) \<Longrightarrow> is_digit c"
proof (induction n rule: show_nat.induct)
  case (1 n)
  show ?case
  proof (cases "n < 10")
    case True
    with "1.prems" show ?thesis by (simp add: show_nat.simps [of n] digit_char_props)
  next
    case False
    with "1.prems" "1.IH" show ?thesis
      by (auto simp: show_nat.simps [of n] digit_char_props)
  qed
qed

lemma show_nat_nonempty: "show_nat n \<noteq> []"
  by (subst show_nat.simps) simp

lemma parse_nat_snoc: "parse_nat (ds @ [c]) = 10 * parse_nat ds + digit_val c"
  by (simp add: parse_nat_def)

lemma parse_nat_show_nat: "parse_nat (show_nat n) = n"
proof (induction n rule: show_nat.induct)
  case (1 n)
  show ?case
  proof (cases "n < 10")
    case True
    then show ?thesis by (simp add: show_nat.simps [of n] parse_nat_def digit_char_props)
  next
    case False
    with "1.IH" show ?thesis
      by (simp add: show_nat.simps [of n] parse_nat_snoc digit_char_props)
  qed
qed

lemma show_nat_hd: "hd (show_nat n) = CHR ''0'' \<Longrightarrow> n = 0"
proof (induction n rule: show_nat.induct)
  case (1 n)
  show ?case
  proof (cases "n < 10")
    case True
    with "1.prems" show ?thesis by (simp add: show_nat.simps [of n] digit_char_props)
  next
    case False
    from False "1.prems" have "hd (show_nat (n div 10)) = CHR ''0''"
      by (simp add: show_nat.simps [of n] show_nat_nonempty)
    with "1.IH" False have "n div 10 = 0" by simp
    with False show ?thesis by simp
  qed
qed

lemma show_nat_no_leading_zero:
  "\<not> (take 1 (show_nat n) = ''0'' \<and> length (show_nat n) > 1)"
proof
  assume a: "take 1 (show_nat n) = ''0'' \<and> length (show_nat n) > 1"
  then have "hd (show_nat n) = CHR ''0''"
    by (cases "show_nat n") auto
  then have "n = 0" by (rule show_nat_hd)
  with a show False by (simp add: show_nat.simps [of 0])
qed

lemma takeWhile_digits:
  assumes "\<forall>c\<in>set ds. is_digit c" and "rest = [] \<or> \<not> is_digit (hd rest)"
  shows "takeWhile is_digit (ds @ rest) = ds" "dropWhile is_digit (ds @ rest) = rest"
  using assms by (cases rest; simp add: takeWhile_append2 dropWhile_append2)+

lemma show_nat_not_minus: "show_nat n = c # cs \<Longrightarrow> c \<noteq> CHR ''-''"
proof -
  assume a: "show_nat n = c # cs"
  then have "is_digit c" using show_nat_digits [of c n] by simp
  then show ?thesis by (auto simp: is_digit_code)
qed

lemma parse_int_show_int:
  assumes "rest = [] \<or> \<not> is_digit (hd rest)"
  shows "parse_int (show_int i @ rest) = Some (i, rest)"
proof (cases "i < 0")
  case True
  let ?ds = "show_nat (nat (- i))"
  have d: "\<forall>c\<in>set ?ds. is_digit c" by (simp add: show_nat_digits)
  show ?thesis
    using True takeWhile_digits [OF d assms] show_nat_no_leading_zero [of "nat (- i)"]
    by (auto simp: parse_int_def Let_def show_int_def show_nat_nonempty parse_nat_show_nat)
next
  case False
  let ?ds = "show_nat (nat i)"
  have d: "\<forall>c\<in>set ?ds. is_digit c" by (simp add: show_nat_digits)
  obtain c cs where cs: "?ds = c # cs" using show_nat_nonempty [of "nat i"] by (cases ?ds) auto
  then have nm: "c \<noteq> CHR ''-''" by (rule show_nat_not_minus)
  have sp: "(case ?ds @ rest of [] \<Rightarrow> (False, ?ds @ rest)
             | c # cs \<Rightarrow> if c = CHR ''-'' then (True, cs) else (False, ?ds @ rest))
            = (False, ?ds @ rest)"
    using nm by (simp add: cs)
  have "parse_int (?ds @ rest) = Some (i, rest)"
    unfolding parse_int_def sp
    using False takeWhile_digits [OF d assms] show_nat_no_leading_zero [of "nat i"]
    by (auto simp: Let_def show_nat_nonempty parse_nat_show_nat)
  with False show ?thesis by (simp add: show_int_def)
qed

lemma hex_val_hex_char: "d < 16 \<Longrightarrow> hex_val (hex_char d) = Some d"
  by (auto simp: hex_val_def hex_char_def less_eq_char_def)

lemma hex4_control:
  assumes "(of_char c :: nat) < 32"
  shows "hex4 (CHR ''0'') (CHR ''0'') (hex_char (of_char c div 16)) (hex_char (of_char c mod 16)) = Some c"
proof -
  have z: "hex_val (CHR ''0'') = Some 0" by (simp add: hex_val_def)
  have a: "hex_val (hex_char (of_char c div 16)) = Some (of_char c div 16)"
    using assms by (intro hex_val_hex_char) simp
  have b: "hex_val (hex_char (of_char c mod 16)) = Some (of_char c mod 16)"
    by (intro hex_val_hex_char) simp
  have "(of_char c :: nat) div 16 * 16 + of_char c mod 16 = of_char c" by simp
  then show ?thesis
    using assms by (simp add: hex4_def z a b)
qed

lemma parse_chars_escape_char:
  "parse_chars (escape_char c @ s) = map_option (\<lambda>(t, rest). (c # t, rest)) (parse_chars s)"
proof -
  consider (named) "c \<in> {CHR 0x08, CHR 0x09, CHR 0x0A, CHR 0x0C, CHR 0x0D, dquote, backslash}"
    | (control) "c \<notin> {CHR 0x08, CHR 0x09, CHR 0x0A, CHR 0x0C, CHR 0x0D, dquote, backslash}"
        "(of_char c :: nat) < 32"
    | (plain) "c \<notin> {CHR 0x08, CHR 0x09, CHR 0x0A, CHR 0x0C, CHR 0x0D, dquote, backslash}"
        "\<not> (of_char c :: nat) < 32"
    by blast
  then show ?thesis
  proof cases
    case named
    then show ?thesis
      by (auto simp: escape_char_def unescape_def dquote_def backslash_def)
  next
    case control
    then show ?thesis
      using hex4_control [OF control(2)]
      by (simp add: escape_char_def dquote_def backslash_def)
  next
    case plain
    then show ?thesis
      by (simp add: escape_char_def)
  qed
qed

lemma parse_chars_quote:
  "parse_chars (concat (map escape_char t) @ dquote # rest) = Some (t, rest)"
  by (induction t) (simp_all add: parse_chars_escape_char)

lemma expect_append: "expect p (p @ s) = Some s"
  by (induction p) simp_all

lemma parse_todo_stringify:
  "parse_todo (stringify_todo t @ rest) = Some (t, rest)"
proof -
  have nd: "\<not> is_digit (hd (title_key @ u))" for u
    by (simp add: title_key_def is_digit_def)
  have 1: "expect id_key (stringify_todo t @ rest)
           = Some (show_int (todo_id t) @ title_key @ quote (title t) @ CHR ''}'' # rest)"
    using expect_append [of id_key] by (simp add: stringify_todo_def)
  have 2: "parse_int (show_int (todo_id t) @ title_key @ quote (title t) @ CHR ''}'' # rest)
           = Some (todo_id t, title_key @ quote (title t) @ CHR ''}'' # rest)"
    using parse_int_show_int [of "title_key @ quote (title t) @ CHR ''}'' # rest" "todo_id t"] nd
    by simp
  have 3: "expect (title_key @ [dquote]) (title_key @ quote (title t) @ CHR ''}'' # rest)
           = Some (concat (map escape_char (title t)) @ dquote # CHR ''}'' # rest)"
    using expect_append [of "title_key @ [dquote]"] by (simp add: quote_def)
  show ?thesis
    by (simp add: parse_todo_def 1 2 3 parse_chars_quote)
qed

lemma parse_elems_stringify:
  "parse_elems (stringify_elems (t # ts) @ '']'') = Some (t # ts)"
proof (induction ts arbitrary: t)
  case Nil
  show ?case
    using parse_todo_stringify [of t "'']''"]
    by (subst parse_elems.simps) simp
next
  case (Cons u us)
  show ?case
    using parse_todo_stringify [of t "'','' @ stringify_elems (u # us) @ '']''"] Cons [of u]
    by (subst parse_elems.simps) simp
qed

lemma JSON_roundtrip: "JSON_parse (JSON_stringify ts) = Inr ts"
proof (cases ts)
  case Nil
  then show ?thesis by (simp add: JSON_parse_def JSON_stringify_def)
next
  case (Cons t us)
  have "stringify_elems (t # us) @ '']'' \<noteq> '']''"
    by (cases us) (simp_all add: stringify_todo_def id_key_def)
  with Cons show ?thesis
    using parse_elems_stringify [of t us]
    by (simp add: JSON_parse_def JSON_stringify_def)
qed

section \<open>Persistence\<close>

text \<open>
  A state is persisted when the storage holds the JSON text of the collection under the
  key of the application. \<open>reopen seed s\<close> is what \<open>getTodos\<close> returns on a new instance
  that is constructed with the seed list on the storage of \<open>s\<close>.
\<close>

definition persisted :: "service \<Rightarrow> bool" where
  "persisted s = (localStorage s TODOS = Some (JSON_stringify (todos s)))"

definition reopen :: "todo list \<Rightarrow> service \<Rightarrow> js_error + todo list" where
  "reopen seed s =
     (case TodoService_constructor seed (localStorage s) of
        Inl e \<Rightarrow> Inl e
      | Inr s' \<Rightarrow> Inr (getTodos s'))"

lemma JSON_stringify_nonempty: "JSON_stringify ts \<noteq> []"
  by (simp add: JSON_stringify_def)

lemma init_persisted:
  "ls TODOS = Some (JSON_stringify ts) \<Longrightarrow>
     TodoService_init ls = Inr \<lparr>todos = ts, localStorage = ls\<rparr>"
  by (simp add: TodoService_init_def JSON_stringify_nonempty JSON_roundtrip)

lemma init_absent:
  "ls TODOS = None \<Longrightarrow> TodoService_init ls = Inr \<lparr>todos = [], localStorage = ls\<rparr>"
  by (simp add: TodoService_init_def JSON_parse_def)

lemma persisted_commit: "persisted (commit s)"
  by (simp add: persisted_def commit_def)

text \<open>
  Claim C8, as amended. Every mutating operation that completes leaves the collection
  persisted. On a persisted state, \<open>_init\<close> reads back the collection as it is: the same
  ids and titles in the same order. A new instance constructed on that storage returns
  the same \<open>getTodos\<close> result when the persisted collection is not empty or the seed
  list of the new instance is empty; over a persisted collection that is not empty the
  new instance is the old state, storage included. When the persisted collection is
  empty, the new instance takes its seed list and writes it to the storage in place of
  the empty collection.
\<close>

theorem persistence_roundtrip:
  "persisted (deleteTodo i s0) \<and> persisted (sortTodos d s0)
   \<and> (fst (addTodo ttl s0) = Inr () \<longrightarrow> persisted (snd (addTodo ttl s0)))
   \<and> (fst (editTodo i ttl s0) = Inr () \<longrightarrow> persisted (snd (editTodo i ttl s0)))
   \<and> (persisted s \<longrightarrow>
        TodoService_init (localStorage s) = Inr s
        \<and> (todos s \<noteq> [] \<or> seed = [] \<longrightarrow> reopen seed s = Inr (getTodos s))
        \<and> (todos s \<noteq> [] \<longrightarrow> TodoService_constructor seed (localStorage s) = Inr s)
        \<and> (todos s = [] \<longrightarrow>
              reopen seed s = Inr seed
              \<and> TodoService_constructor seed (localStorage s)
                  = Inr \<lparr>todos = seed,
                         localStorage = (localStorage s)(TODOS \<mapsto> JSON_stringify seed)\<rparr>))"
proof -
  have ops: "persisted (deleteTodo i s0)" "persisted (sortTodos d s0)"
    "fst (addTodo ttl s0) = Inr () \<longrightarrow> persisted (snd (addTodo ttl s0))"
    "fst (editTodo i ttl s0) = Inr () \<longrightarrow> persisted (snd (editTodo i ttl s0))"
    by (simp_all add: deleteTodo_def sortTodos_def Let_def addTodo_def generateId_eq
          editTodo_cases persisted_commit)
  have rt: "TodoService_init (localStorage s) = Inr s" if "persisted s"
    using that init_persisted [of "localStorage s" "todos s"] by (simp add: persisted_def)
  have co1: "TodoService_constructor seed (localStorage s) = Inr s"
    if "persisted s" "todos s \<noteq> []"
    using that rt by (simp add: TodoService_constructor_def)
  have co2: "TodoService_constructor seed (localStorage s)
               = Inr \<lparr>todos = seed, localStorage = (localStorage s)(TODOS \<mapsto> JSON_stringify seed)\<rparr>"
    if "persisted s" "todos s = []"
    using that rt by (simp add: TodoService_constructor_def commit_def)
  have re1: "reopen seed s = Inr (getTodos s)" if "persisted s" "todos s \<noteq> []"
    using that co1 by (simp add: reopen_def)
  have re2: "reopen seed s = Inr seed" if "persisted s" "todos s = []"
    using that co2 by (simp add: reopen_def getTodos_def)
  have re3: "reopen seed s = Inr (getTodos s)" if "persisted s" "todos s = []" "seed = []"
    using that re2 by (simp add: getTodos_def)
  show ?thesis
    using ops rt co1 co2 re1 re2 re3 by blast
qed

theorem persistence_roundtrip_witness:
  "persisted (deleteTodo 2 \<lparr>todos = [\<lparr>todo_id = 1, title = ''a''\<rparr>, \<lparr>todo_id = 2, title = ''b''\<rparr>],
                            localStorage = Map.empty\<rparr>)
   \<and> reopen [\<lparr>todo_id = 1, title = ''''\<rparr>]
        (deleteTodo 2 \<lparr>todos = [\<lparr>todo_id = 1, title = ''a''\<rparr>, \<lparr>todo_id = 2, title = ''b''\<rparr>],
                        localStorage = Map.empty\<rparr>)
     = Inr [\<lparr>todo_id = 1, title = ''a''\<rparr>]
   \<and> TodoService_constructor [\<lparr>todo_id = 1, title = ''''\<rparr>]
        (localStorage (deleteTodo 2
           \<lparr>todos = [\<lparr>todo_id = 1, title = ''a''\<rparr>, \<lparr>todo_id = 2, title = ''b''\<rparr>],
            localStorage = Map.empty\<rparr>))
     = Inr \<lparr>todos = [\<lparr>todo_id = 1, title = ''a''\<rparr>],
            localStorage = [TODOS \<mapsto> JSON_stringify [\<lparr>todo_id = 1, title = ''a''\<rparr>]]\<rparr>
   \<and> persisted (snd (addTodo ''c'' \<lparr>todos = [\<lparr>todo_id = 1, title = ''a''\<rparr>], localStorage = Map.empty\<rparr>))
   \<and> persisted (snd (editTodo 1 ''c'' \<lparr>todos = [\<lparr>todo_id = 1, title = ''a''\<rparr>], localStorage = Map.empty\<rparr>))
   \<and> reopen [\<lparr>todo_id = 1, title = ''''\<rparr>]
        (deleteTodo 1 \<lparr>todos = [\<lparr>todo_id = 1, title = ''a''\<rparr>], localStorage = Map.empty\<rparr>)
     = Inr [\<lparr>todo_id = 1, title = ''''\<rparr>]
   \<and> TodoService_constructor [\<lparr>todo_id = 1, title = ''''\<rparr>]
        (localStorage (deleteTodo 1 \<lparr>todos = [\<lparr>todo_id = 1, title = ''a''\<rparr>], localStorage = Map.empty\<rparr>))
     = Inr \<lparr>todos = [\<lparr>todo_id = 1, title = ''''\<rparr>],
            localStorage = [TODOS \<mapsto> JSON_stringify [\<lparr>todo_id = 1, title = ''''\<rparr>]]\<rparr>"
proof -
  let ?s2 = "\<lparr>todos = [\<lparr>todo_id = 1, title = ''a''\<rparr>, \<lparr>todo_id = 2, title = ''b''\<rparr>],
              localStorage = Map.empty\<rparr>"
  let ?s1 = "\<lparr>todos = [\<lparr>todo_id = 1, title = ''a''\<rparr>], localStorage = Map.empty\<rparr>"
  let ?seed = "[\<lparr>todo_id = 1, title = ''''\<rparr>]"
  have ok: "fst (addTodo ''c'' ?s1) = Inr ()" "fst (editTodo 1 ''c'' ?s1) = Inr ()"
    by (simp_all add: addTodo_def generateId_eq editTodo_cases)
  have d2: "deleteTodo 2 ?s2 = \<lparr>todos = [\<lparr>todo_id = 1, title = ''a''\<rparr>],
              localStorage = [TODOS \<mapsto> JSON_stringify [\<lparr>todo_id = 1, title = ''a''\<rparr>]]\<rparr>"
    and d1: "deleteTodo 1 ?s1 = \<lparr>todos = [], localStorage = [TODOS \<mapsto> JSON_stringify []]\<rparr>"
    by (simp_all add: deleteTodo_def commit_def)
  from persistence_roundtrip [of 2 ?s2 True "''c''" "deleteTodo 2 ?s2" ?seed]
  have a: "persisted (deleteTodo 2 ?s2)"
    "reopen ?seed (deleteTodo 2 ?s2) = Inr [\<lparr>todo_id = 1, title = ''a''\<rparr>]"
    "TodoService_constructor ?seed (localStorage (deleteTodo 2 ?s2))
       = Inr \<lparr>todos = [\<lparr>todo_id = 1, title = ''a''\<rparr>],
              localStorage = [TODOS \<mapsto> JSON_stringify [\<lparr>todo_id = 1, title = ''a''\<rparr>]]\<rparr>"
    by (simp_all add: d2 getTodos_def)
  from persistence_roundtrip [of 1 ?s1 True "''c''" "deleteTodo 1 ?s1" ?seed] ok
  have b: "persisted (snd (addTodo ''c'' ?s1))" "persisted (snd (editTodo 1 ''c'' ?s1))"
    "reopen ?seed (deleteTodo 1 ?s1) = Inr ?seed"
    "TodoService_constructor ?seed (localStorage (deleteTodo 1 ?s1))
       = Inr \<lparr>todos = ?seed, localStorage = [TODOS \<mapsto> JSON_stringify ?seed]\<rparr>"
    by (simp_all add: d1)
  from a b show ?thesis by simp
qed

text \<open>
  The round trip through the constructor, as the claim states it, fails on the empty
  collection: after the only todo is deleted, a new instance with the seed list of the
  application shows the seed entry, not the empty collection.
\<close>

theorem reopen_empty_counterexample:
  "reopen [\<lparr>todo_id = 1, title = ''''\<rparr>]
      (deleteTodo 1 \<lparr>todos = [\<lparr>todo_id = 1, title = ''a''\<rparr>], localStorage = Map.empty\<rparr>)
   \<noteq> Inr (getTodos (deleteTodo 1 \<lparr>todos = [\<lparr>todo_id = 1, title = ''a''\<rparr>], localStorage = Map.empty\<rparr>))"
  by (simp add: reopen_def TodoService_constructor_def TodoService_init_def deleteTodo_def
        commit_def getTodos_def JSON_stringify_def JSON_parse_def)

text \<open>
  Claim C10. Construction does not trim. With no persisted text, the seed list becomes
  the collection and is persisted as it is; with a persisted non-empty collection, the
  records read from the storage become the collection as they are. The constructor of
  \<open>Todo\<close>, which only \<open>addTodo\<close> calls, trims its title, as \<open>editTodo\<close> does (claim C6);
  \<open>deleteTodo\<close> and \<open>sortTodos\<close> leave only todos that were there. The witness is the seed
  entry whose title is an x with two blanks on each side.
\<close>

theorem construction_keeps_titles:
  "(ls TODOS = None \<longrightarrow>
      TodoService_constructor seed ls
        = Inr \<lparr>todos = seed, localStorage = ls(TODOS \<mapsto> JSON_stringify seed)\<rparr>)
   \<and> (ls TODOS = Some (JSON_stringify ts) \<and> ts \<noteq> [] \<longrightarrow>
      TodoService_constructor seed ls = Inr \<lparr>todos = ts, localStorage = ls\<rparr>)
   \<and> title (Todo i ttl) = trim ttl
   \<and> set (todos (deleteTodo i s)) \<subseteq> set (todos s)
   \<and> set (todos (sortTodos d s)) \<subseteq> set (todos s)"
  by (auto simp: TodoService_constructor_def init_persisted init_absent commit_def Todo_def
        deleteTodo_def sortTodos_def Let_def set_js_sort)

theorem construction_keeps_titles_witness:
  "map_sum (\<lambda>e. e) getTodos (TodoService_constructor [\<lparr>todo_id = 1, title = ''  x  ''\<rparr>] Map.empty)
     = Inr [\<lparr>todo_id = 1, title = ''  x  ''\<rparr>]
   \<and> map_sum (\<lambda>e. e) (\<lambda>s. localStorage s TODOS)
        (TodoService_constructor [\<lparr>todo_id = 1, title = ''  x  ''\<rparr>] Map.empty)
     = Inr (Some (JSON_stringify [\<lparr>todo_id = 1, title = ''  x  ''\<rparr>]))
   \<and> map_sum (\<lambda>e. e) getTodos
        (TodoService_constructor [] [TODOS \<mapsto> JSON_stringify [\<lparr>todo_id = 1, title = ''  x  ''\<rparr>]])
     = Inr [\<lparr>todo_id = 1, title = ''  x  ''\<rparr>]
   \<and> title (Todo 1 ''  x  '') = ''x''"
  using construction_keeps_titles [of Map.empty "[\<lparr>todo_id = 1, title = ''  x  ''\<rparr>]" "[]" 1 "''  x  ''"]
    construction_keeps_titles [of "[TODOS \<mapsto> JSON_stringify [\<lparr>todo_id = 1, title = ''  x  ''\<rparr>]]"
       "[]" "[\<lparr>todo_id = 1, title = ''  x  ''\<rparr>]" 1 "''  x  ''"]
  by (simp add: getTodos_def trim_def is_space_def)

section \<open>The invariant of the single empty title\<close>

definition at_most_one_empty :: "todo list \<Rightarrow> bool" where
  "at_most_one_empty ts = (length (filter (\<lambda>t. title t = []) ts) \<le> 1)"

lemma addTodo_keeps_invariant:
  "at_most_one_empty (todos s) \<Longrightarrow> at_most_one_empty (todos (snd (addTodo ttl s)))"
  by (auto simp: addTodo_def generateId_eq commit_def at_most_one_empty_def list_ex_iff
        filter_empty_conv)

lemma deleteTodo_keeps_invariant:
  "at_most_one_empty (todos s) \<Longrightarrow> at_most_one_empty (todos (deleteTodo i s))"
proof -
  have "length (filter (\<lambda>t. title t = []) (filter (\<lambda>t. todo_id t \<noteq> i) (todos s)))
        \<le> length (filter (\<lambda>t. title t = []) (todos s))"
    (is "?l \<le> ?r")
  proof -
    have "?l = length (filter (\<lambda>t. todo_id t \<noteq> i) (filter (\<lambda>t. title t = []) (todos s)))"
      by (simp add: conj_commute)
    also have "\<dots> \<le> ?r" by (rule length_filter_le)
    finally show ?thesis .
  qed
  then show "at_most_one_empty (todos s) \<Longrightarrow> ?thesis"
    by (simp add: deleteTodo_def commit_def at_most_one_empty_def)
qed

lemma sortTodos_keeps_invariant: "at_most_one_empty (todos (sortTodos d s))"
proof -
  have "filter (\<lambda>t. title t = []) (todos (sortTodos d s)) = []"
    by (auto simp: sortTodos_def Let_def commit_def filter_empty_conv set_js_sort)
  then show ?thesis by (simp add: at_most_one_empty_def)
qed

lemma editTodo_keeps_invariant:
  assumes "at_most_one_empty (todos s)" "trim ttl \<noteq> []"
  shows "at_most_one_empty (todos (snd (editTodo i ttl s)))"
proof -
  have "length (filter (\<lambda>t. title t = []) (xs[k := (xs ! k)\<lparr>title := trim ttl\<rparr>]))
        \<le> length (filter (\<lambda>t. title t = []) xs)" for xs :: "todo list" and k
  proof (induction xs arbitrary: k)
    case Nil
    then show ?case by simp
  next
    case (Cons x xs)
    then show ?case using assms(2) by (cases k) (auto simp: le_SucI)
  qed
  then show ?thesis
    using assms(1) by (auto simp: editTodo_cases commit_def at_most_one_empty_def intro: order_trans)
qed

text \<open>
  Claim C4. At most one todo with an empty title: \<open>addTodo\<close>, \<open>deleteTodo\<close> and \<open>sortTodos\<close>
  keep this, and so does \<open>editTodo\<close> when the trimmed title is not empty (the four lemmas
  above). \<open>editTodo\<close> with a title of white space only does not: it tests the title before
  trimming it, completes normally and stores the empty title next to the one that is
  already there.
\<close>

theorem editTodo_blank_title_breaks_invariant:
  "at_most_one_empty (todos \<lparr>todos = [\<lparr>todo_id = 1, title = ''''\<rparr>, \<lparr>todo_id = 2, title = ''a''\<rparr>],
                            localStorage = Map.empty\<rparr>)
   \<and> editTodo 2 '' '' \<lparr>todos = [\<lparr>todo_id = 1, title = ''''\<rparr>, \<lparr>todo_id = 2, title = ''a''\<rparr>],
                        localStorage = Map.empty\<rparr>
     = (Inr (), \<lparr>todos = [\<lparr>todo_id = 1, title = ''''\<rparr>, \<lparr>todo_id = 2, title = ''''\<rparr>],
                localStorage = [TODOS \<mapsto> JSON_stringify
                    [\<lparr>todo_id = 1, title = ''''\<rparr>, \<lparr>todo_id = 2, title = ''''\<rparr>]]\<rparr>)
   \<and> \<not> at_most_one_empty [\<lparr>todo_id = 1, title = ''''\<rparr>, \<lparr>todo_id = 2, title = ''''\<rparr>]"
  by (simp add: at_most_one_empty_def editTodo_def getIndex_def Let_def commit_def
        trim_def is_space_def)

section \<open>Class DOMManipulator\<close>

text \<open>
  What the methods of \<open>DOMManipulator\<close> read and write: the service (with the storage),
  the sort direction, the \<open>src\<close> attribute of the sort button, the rows shown in the list
  (one per todo, with its id and the title shown in its input field), and the messages
  shown by \<open>alert\<close>, the latest last. The document is the list of the selectors that have
  an element.
\<close>

record DOMManipulator =
  todoService :: service
  sortDir :: bool
  sortButtonSrc :: string
  todoList :: "todo list"
  alerts :: "string list"

text \<open>The \<open>message\<close> of a thrown error; the texts of the engine's own errors are not modelled.\<close>

fun message :: "js_error \<Rightarrow> string" where
  "message (Error m) = m"
| "message SyntaxError = ''SyntaxError''"
| "message TypeError = ''TypeError''"

definition getElement :: "string list \<Rightarrow> string \<Rightarrow> js_error + string" where
  "getElement document selector =
     (if selector \<in> set document then Inr selector
      else Inl (Error (''There are no such element : '' @ selector @ ''.'')))"

definition displayTodos :: "DOMManipulator \<Rightarrow> DOMManipulator" where
  "displayTodos d = d\<lparr>todoList := getTodos (todoService d)\<rparr>"

definition showError :: "string \<Rightarrow> DOMManipulator \<Rightarrow> DOMManipulator" where
  "showError msg d = displayTodos (d\<lparr>alerts := alerts d @ [msg]\<rparr>)"

definition DOMManipulator_init :: "string list \<Rightarrow> string \<Rightarrow> service \<Rightarrow> js_error + DOMManipulator" where
  "DOMManipulator_init document src svc =
     (case getElement document ''#todo-list'' of
        Inl e \<Rightarrow> Inl e
      | Inr _ \<Rightarrow>
          (case getElement document ''#add-button'' of
             Inl e \<Rightarrow> Inl e
           | Inr _ \<Rightarrow>
               (case getElement document ''#sort-button'' of
                  Inl e \<Rightarrow> Inl e
                | Inr _ \<Rightarrow>
                    Inr (displayTodos \<lparr>todoService = svc, sortDir = True, sortButtonSrc = src,
                                       todoList = [], alerts = []\<rparr>))))"

definition handleEdit :: "int \<Rightarrow> string \<Rightarrow> DOMManipulator \<Rightarrow> DOMManipulator" where
  "handleEdit i ttl d =
     (case editTodo i ttl (todoService d) of
        (Inr _, s) \<Rightarrow> displayTodos (d\<lparr>todoService := s\<rparr>)
      | (Inl e, s) \<Rightarrow> showError (message e) (d\<lparr>todoService := s\<rparr>))"

definition handleAdd :: "DOMManipulator \<Rightarrow> DOMManipulator" where
  "handleAdd d =
     (case addTodo [] (todoService d) of
        (Inr _, s) \<Rightarrow> displayTodos (d\<lparr>todoService := s, sortDir := True\<rparr>)
      | (Inl e, s) \<Rightarrow> showError (message e) (d\<lparr>todoService := s\<rparr>))"

definition handleDelete :: "int \<Rightarrow> DOMManipulator \<Rightarrow> DOMManipulator" where
  "handleDelete i d = displayTodos (d\<lparr>todoService := deleteTodo i (todoService d)\<rparr>)"

definition handleSort :: "DOMManipulator \<Rightarrow> DOMManipulator" where
  "handleSort d =
     (let d1 = d\<lparr>todoService := sortTodos (sortDir d) (todoService d)\<rparr>;
          d2 = d1\<lparr>sortDir := \<not> sortDir d1\<rparr>;
          d3 = d2\<lparr>sortButtonSrc := (if sortDir d2 then ''./img/blackdown.svg'' else ''./img/blackup.svg'')\<rparr>
      in displayTodos d3)"

text \<open>The last line of the script: the page as it is after loading.\<close>

definition manipulator :: "string list \<Rightarrow> string \<Rightarrow> storage \<Rightarrow> js_error + DOMManipulator" where
  "manipulator document src ls =
     (case TodoService_constructor [\<lparr>todo_id = 1, title = []\<rparr>] ls of
        Inl e \<Rightarrow> Inl e
      | Inr s \<Rightarrow> DOMManipulator_init document src s)"

text \<open>The gestures of the user, each with the handler that the script registers for it.\<close>

datatype gesture = AddGesture | SortGesture | EditGesture int string | DeleteGesture int

fun handle :: "gesture \<Rightarrow> DOMManipulator \<Rightarrow> DOMManipulator" where
  "handle AddGesture d = handleAdd d"
| "handle SortGesture d = handleSort d"
| "handle (EditGesture i ttl) d = handleEdit i ttl d"
| "handle (DeleteGesture i) d = handleDelete i d"

definition run :: "gesture list \<Rightarrow> DOMManipulator \<Rightarrow> DOMManipulator" where
  "run gs d = fold handle gs d"

text \<open>
  Claim C9, as amended. The sort direction starts as ascending. Every sort gesture sorts
  in the direction it finds and then flips the direction. An add gesture whose \<open>addTodo\<close>
  completes (no todo has an empty title) sets the direction to ascending; an add gesture
  whose \<open>addTodo\<close> throws (some todo has an empty title) leaves the direction and the
  collection as they were. Edit and delete gestures leave the direction alone.
\<close>

theorem sort_direction_machine:
  "(DOMManipulator_init document src svc = Inr d0 \<longrightarrow> sortDir d0 = True)
   \<and> sortDir (handleSort d) = (\<not> sortDir d)
   \<and> todoService (handleSort d) = sortTodos (sortDir d) (todoService d)
   \<and> (\<not> list_ex (\<lambda>t. title t = []) (todos (todoService d)) \<longrightarrow>
        fst (addTodo [] (todoService d)) = Inr () \<and> sortDir (handleAdd d) = True)
   \<and> (list_ex (\<lambda>t. title t = []) (todos (todoService d)) \<longrightarrow>
        fst (addTodo [] (todoService d)) = Inl DuplicateEmptyEntry
        \<and> sortDir (handleAdd d) = sortDir d
        \<and> todoService (handleAdd d) = todoService d)
   \<and> sortDir (handleEdit i ttl d) = sortDir d
   \<and> sortDir (handleDelete i d) = sortDir d"
proof -
  have init: "DOMManipulator_init document src svc = Inr d0 \<longrightarrow> sortDir d0 = True"
    by (auto simp: DOMManipulator_init_def displayTodos_def split: sum.splits)
  have sort: "sortDir (handleSort d) = (\<not> sortDir d)"
    "todoService (handleSort d) = sortTodos (sortDir d) (todoService d)"
    by (simp_all add: handleSort_def Let_def displayTodos_def)
  have add_ok: "fst (addTodo [] (todoService d)) = Inr () \<and> sortDir (handleAdd d) = True"
    if "\<not> list_ex (\<lambda>t. title t = []) (todos (todoService d))"
    using that by (simp add: handleAdd_def addTodo_def generateId_eq displayTodos_def)
  have add_fail: "fst (addTodo [] (todoService d)) = Inl DuplicateEmptyEntry
        \<and> sortDir (handleAdd d) = sortDir d \<and> todoService (handleAdd d) = todoService d"
    if "list_ex (\<lambda>t. title t = []) (todos (todoService d))"
    using that
    by (simp add: handleAdd_def addTodo_def DuplicateEmptyEntry_def showError_def displayTodos_def)
  have other: "sortDir (handleEdit i ttl d) = sortDir d" "sortDir (handleDelete i d) = sortDir d"
    by (simp_all add: handleEdit_def handleDelete_def showError_def displayTodos_def
          split: prod.splits sum.splits)
  show ?thesis
    using init sort add_ok add_fail other by blast
qed

theorem sort_direction_machine_witness:
  "DOMManipulator_init [''#todo-list'', ''#add-button'', ''#sort-button''] ''./img/blackdown.svg''
      \<lparr>todos = [\<lparr>todo_id = 1, title = ''a''\<rparr>], localStorage = Map.empty\<rparr>
     = Inr \<lparr>todoService = \<lparr>todos = [\<lparr>todo_id = 1, title = ''a''\<rparr>], localStorage = Map.empty\<rparr>,
            sortDir = True, sortButtonSrc = ''./img/blackdown.svg'',
            todoList = [\<lparr>todo_id = 1, title = ''a''\<rparr>], alerts = []\<rparr>
   \<and> sortDir (handleAdd \<lparr>todoService = \<lparr>todos = [\<lparr>todo_id = 1, title = ''a''\<rparr>], localStorage = Map.empty\<rparr>,
                       sortDir = False, sortButtonSrc = ''./img/blackup.svg'',
                       todoList = [\<lparr>todo_id = 1, title = ''a''\<rparr>], alerts = []\<rparr>) = True
   \<and> sortDir (handleAdd \<lparr>todoService = \<lparr>todos = [\<lparr>todo_id = 1, title = []\<rparr>], localStorage = Map.empty\<rparr>,
                         sortDir = False, sortButtonSrc = ''./img/blackup.svg'',
                         todoList = [\<lparr>todo_id = 1, title = []\<rparr>], alerts = []\<rparr>) = False
   \<and> sortDir (handleSort \<lparr>todoService = \<lparr>todos = [\<lparr>todo_id = 1, title = []\<rparr>], localStorage = Map.empty\<rparr>,
                          sortDir = False, sortButtonSrc = ''./img/blackup.svg'',
                          todoList = [\<lparr>todo_id = 1, title = []\<rparr>], alerts = []\<rparr>) = True"
proof -
  let ?sa = "\<lparr>todos = [\<lparr>todo_id = 1, title = ''a''\<rparr>], localStorage = Map.empty\<rparr>"
  let ?d0 = "\<lparr>todoService = ?sa, sortDir = True, sortButtonSrc = ''./img/blackdown.svg'',
              todoList = [\<lparr>todo_id = 1, title = ''a''\<rparr>], alerts = []\<rparr>"
  let ?da = "\<lparr>todoService = ?sa, sortDir = False, sortButtonSrc = ''./img/blackup.svg'',
              todoList = [\<lparr>todo_id = 1, title = ''a''\<rparr>], alerts = []\<rparr>"
  let ?de = "\<lparr>todoService = \<lparr>todos = [\<lparr>todo_id = 1, title = []\<rparr>], localStorage = Map.empty\<rparr>,
              sortDir = False, sortButtonSrc = ''./img/blackup.svg'',
              todoList = [\<lparr>todo_id = 1, title = []\<rparr>], alerts = []\<rparr>"
  have init: "DOMManipulator_init [''#todo-list'', ''#add-button'', ''#sort-button'']
                ''./img/blackdown.svg'' ?sa = Inr ?d0"
    by (simp add: DOMManipulator_init_def getElement_def displayTodos_def getTodos_def)
  from sort_direction_machine
         [of "[''#todo-list'', ''#add-button'', ''#sort-button'']" "''./img/blackdown.svg'' " ?sa ?d0 ?da]
       sort_direction_machine [where d = ?de] init
  show ?thesis by simp
qed

text \<open>
  The add gesture does not reset the direction when \<open>addTodo\<close> throws. On the page as
  loaded with an empty storage: type a title into the open row, sort (the direction is
  now descending), replace the title by a blank (the row is empty again), and add: the
  add fails and the direction is still descending.
\<close>

theorem add_gesture_counterexample:
  "manipulator [''#todo-list'', ''#add-button'', ''#sort-button''] ''./img/blackdown.svg'' Map.empty
     = Inr \<lparr>todoService = \<lparr>todos = [\<lparr>todo_id = 1, title = []\<rparr>],
                            localStorage = [TODOS \<mapsto> JSON_stringify [\<lparr>todo_id = 1, title = []\<rparr>]]\<rparr>,
            sortDir = True, sortButtonSrc = ''./img/blackdown.svg'',
            todoList = [\<lparr>todo_id = 1, title = []\<rparr>], alerts = []\<rparr>
   \<and> sortDir (run [EditGesture 1 ''a'', SortGesture, EditGesture 1 '' '', AddGesture]
        \<lparr>todoService = \<lparr>todos = [\<lparr>todo_id = 1, title = []\<rparr>],
                          localStorage = [TODOS \<mapsto> JSON_stringify [\<lparr>todo_id = 1, title = []\<rparr>]]\<rparr>,
          sortDir = True, sortButtonSrc = ''./img/blackdown.svg'',
          todoList = [\<lparr>todo_id = 1, title = []\<rparr>], alerts = []\<rparr>) = False"
  by (simp add: manipulator_def TodoService_constructor_def init_absent commit_def
        DOMManipulator_init_def getElement_def displayTodos_def getTodos_def run_def
        handleEdit_def handleSort_def handleAdd_def editTodo_def getIndex_def addTodo_def
        sortTodos_def js_sort_def trim_def is_space_def showError_def Let_def)

section \<open>References: what getTodos hands out\<close>

text \<open>
  The todos of the source are objects and \<open>_todos\<close> is an array of references to them.
  Whether a consumer of \<open>getTodos\<close> can reach the state of the store depends on this
  sharing, so here the objects and the arrays live in a heap: a record object and an
  array each have a reference, an array holds the references of its entries, and a new
  array takes the next unused reference. \<open>getTodos_heap\<close> is \<open>getTodos\<close> on the field
  \<open>_todos\<close> of the instance: the spread makes a new array with the same entries.
  \<open>write_array\<close> stands for every change that a consumer can make to an array (an
  assignment to an index or to the length, \<open>push\<close>, \<open>pop\<close>, \<open>splice\<close>, \<open>sort\<close>, \<open>reverse\<close>
  each leave it with some list of entries), \<open>write_title\<close> for the assignment to the
  title of a record, and \<open>read_todos\<close> for the ids and titles that are seen through an
  array.
\<close>

type_synonym ref = nat

record heap =
  objects :: "ref \<rightharpoonup> todo"
  arrays :: "ref \<rightharpoonup> ref list"
  next_ref :: ref

definition getTodos_heap :: "ref \<Rightarrow> heap \<Rightarrow> (ref \<times> heap) option" where
  "getTodos_heap this_todos h =
     (case arrays h this_todos of
        None \<Rightarrow> None
      | Some rs \<Rightarrow>
          Some (next_ref h,
                h\<lparr>arrays := (arrays h)(next_ref h \<mapsto> rs), next_ref := Suc (next_ref h)\<rparr>))"

definition write_array :: "ref \<Rightarrow> ref list \<Rightarrow> heap \<Rightarrow> heap" where
  "write_array a rs h = h\<lparr>arrays := (arrays h)(a \<mapsto> rs)\<rparr>"

definition write_title :: "ref \<Rightarrow> string \<Rightarrow> heap \<Rightarrow> heap" where
  "write_title r ttl h =
     (case objects h r of
        None \<Rightarrow> h
      | Some t \<Rightarrow> h\<lparr>objects := (objects h)(r \<mapsto> t\<lparr>title := ttl\<rparr>)\<rparr>)"

definition read_todos :: "ref \<Rightarrow> heap \<Rightarrow> todo option list option" where
  "read_todos a h = map_option (map (objects h)) (arrays h a)"

lemma fold_write_array:
  "objects (fold (write_array a) rss h) = objects h
   \<and> next_ref (fold (write_array a) rss h) = next_ref h
   \<and> (r \<noteq> a \<longrightarrow> arrays (fold (write_array a) rss h) r = arrays h r)"
  by (induction rss arbitrary: h) (simp_all add: write_array_def)

text \<open>
  Claim C5, as amended. \<open>getTodos\<close> returns a new array with the records of the store in
  it: the snapshot shows the collection and leaves the store as it is, and whatever a
  consumer does to the returned array, any number of times, changes neither the
  collection of the store nor what a later \<open>getTodos\<close> shows. The records in the returned
  array are the store's own records, not copies.
\<close>

theorem getTodos_copies_the_array_only:
  assumes "arrays h this_todos = Some rs" and "this_todos < next_ref h"
  shows "\<exists>a h1. getTodos_heap this_todos h = Some (a, h1)
           \<and> a \<noteq> this_todos
           \<and> arrays h1 a = Some rs
           \<and> read_todos a h1 = read_todos this_todos h
           \<and> read_todos this_todos h1 = read_todos this_todos h
           \<and> (\<forall>rss. read_todos this_todos (fold (write_array a) rss h1) = read_todos this_todos h
                \<and> (\<exists>b h3. getTodos_heap this_todos (fold (write_array a) rss h1) = Some (b, h3)
                      \<and> read_todos b h3 = read_todos this_todos h))"
proof -
  let ?a = "next_ref h"
  let ?h1 = "h\<lparr>arrays := (arrays h)(?a \<mapsto> rs), next_ref := Suc ?a\<rparr>"
  have get: "getTodos_heap this_todos h = Some (?a, ?h1)"
    using assms(1) by (simp add: getTodos_heap_def)
  have ne: "?a \<noteq> this_todos" using assms(2) by simp
  have own: "read_todos ?a ?h1 = read_todos this_todos h"
    "read_todos this_todos ?h1 = read_todos this_todos h"
    using assms ne by (simp_all add: read_todos_def)
  have later: "read_todos this_todos (fold (write_array ?a) rss ?h1) = read_todos this_todos h
      \<and> (\<exists>b h3. getTodos_heap this_todos (fold (write_array ?a) rss ?h1) = Some (b, h3)
            \<and> read_todos b h3 = read_todos this_todos h)" for rss
  proof -
    let ?h2 = "fold (write_array ?a) rss ?h1"
    from fold_write_array [of ?a rss ?h1 this_todos] ne assms(1)
    have o: "objects ?h2 = objects h" and a: "arrays ?h2 this_todos = Some rs"
      by simp_all
    from o a assms(1) show ?thesis
      by (simp add: read_todos_def getTodos_heap_def)
  qed
  show ?thesis
    using get ne own later by (intro exI [of _ ?a] exI [of _ ?h1]) simp
qed

theorem getTodos_copies_the_array_only_witness:
  "arrays \<lparr>objects = [1 \<mapsto> \<lparr>todo_id = 1, title = ''a''\<rparr>], arrays = [0 \<mapsto> [1]], next_ref = 2\<rparr> 0 = Some [1]
   \<and> (0::nat) < next_ref \<lparr>objects = [1 \<mapsto> \<lparr>todo_id = 1, title = ''a''\<rparr>], arrays = [0 \<mapsto> [1]], next_ref = 2\<rparr>
   \<and> read_todos 0 (write_array 2 [] \<lparr>objects = [1 \<mapsto> \<lparr>todo_id = 1, title = ''a''\<rparr>],
                                      arrays = [0 \<mapsto> [1], 2 \<mapsto> [1]], next_ref = 3\<rparr>)
     = Some [Some \<lparr>todo_id = 1, title = ''a''\<rparr>]"
proof -
  let ?h = "\<lparr>objects = [1 \<mapsto> \<lparr>todo_id = 1, title = ''a''\<rparr>], arrays = [0 \<mapsto> [1]], next_ref = 2\<rparr>"
  let ?h1 = "\<lparr>objects = [1 \<mapsto> \<lparr>todo_id = 1, title = ''a''\<rparr>],
             arrays = [0 \<mapsto> [1], 2 \<mapsto> [1]], next_ref = 3\<rparr>"
  have pre: "arrays ?h 0 = Some [1]" "0 < next_ref ?h" by simp_all
  from getTodos_copies_the_array_only [OF pre]
  obtain a h1 where get: "getTodos_heap 0 ?h = Some (a, h1)"
    and later: "\<forall>rss. read_todos 0 (fold (write_array a) rss h1) = read_todos 0 ?h
                  \<and> (\<exists>b h3. getTodos_heap 0 (fold (write_array a) rss h1) = Some (b, h3)
                        \<and> read_todos b h3 = read_todos 0 ?h)"
    by blast
  from get have "a = 2" "h1 = ?h1" by (simp_all add: getTodos_heap_def)
  with later have "read_todos 0 (fold (write_array 2) [[]] ?h1) = read_todos 0 ?h" by blast
  with pre show ?thesis by (simp add: read_todos_def)
qed

text \<open>
  An assignment to the title of a record in the returned array does change the
  collection of the store: the store with the single todo a shows the new title after
  the consumer has written to the record that the snapshot holds.
\<close>

theorem getTodos_record_counterexample:
  "getTodos_heap 0 \<lparr>objects = [1 \<mapsto> \<lparr>todo_id = 1, title = ''a''\<rparr>], arrays = [0 \<mapsto> [1]], next_ref = 2\<rparr>
     = Some (2, \<lparr>objects = [1 \<mapsto> \<lparr>todo_id = 1, title = ''a''\<rparr>],
                 arrays = [0 \<mapsto> [1], 2 \<mapsto> [1]], next_ref = 3\<rparr>)
   \<and> read_todos 0 (write_title 1 ''changed''
        \<lparr>objects = [1 \<mapsto> \<lparr>todo_id = 1, title = ''a''\<rparr>], arrays = [0 \<mapsto> [1], 2 \<mapsto> [1]], next_ref = 3\<rparr>)
     \<noteq> read_todos 0 \<lparr>objects = [1 \<mapsto> \<lparr>todo_id = 1, title = ''a''\<rparr>], arrays = [0 \<mapsto> [1]], next_ref = 2\<rparr>"
  by (simp add: getTodos_heap_def read_todos_def write_title_def)

end
